theory Spec2Isabelle
  imports Main
begin

section \<open>Python strings and library functions used by main.py\<close>

text \<open>
  A Python \<open>str\<close> is a sequence of code points. The model writes it as a \<open>string\<close> and
  reads each \<open>char\<close> as the code point of that number, so it covers the strings whose
  code points are below 256. \<open>str.lower\<close> and \<open>str.strip\<close> are given for that range.
\<close>

definition lower_char :: "char \<Rightarrow> char" where
  "lower_char c =
     (let n = (of_char c :: nat)
      in if (65 \<le> n \<and> n \<le> 90) \<or> (192 \<le> n \<and> n \<le> 222 \<and> n \<noteq> 215)
         then char_of (n + 32) else c)"

definition lower :: "string \<Rightarrow> string" where
  "lower s = map lower_char s"

definition isspace :: "char \<Rightarrow> bool" where
  "isspace c =
     (let n = (of_char c :: nat)
      in (9 \<le> n \<and> n \<le> 13) \<or> (28 \<le> n \<and> n \<le> 32) \<or> n = 133 \<or> n = 160)"

definition strip :: "string \<Rightarrow> string" where
  "strip s = rev (dropWhile isspace (rev (dropWhile isspace s)))"

definition startswith :: "string \<Rightarrow> string \<Rightarrow> bool" where
  "startswith s p = (take (length p) s = p)"

definition endswith :: "string \<Rightarrow> string \<Rightarrow> bool" where
  "endswith s p = (length p \<le> length s \<and> drop (length s - length p) s = p)"

fun join :: "string \<Rightarrow> string list \<Rightarrow> string" where
  "join sep [] = []"
| "join sep [x] = x"
| "join sep (x # y # ys) = x @ sep @ join sep (y # ys)"

definition digit_char :: "nat \<Rightarrow> char" where
  "digit_char d = char_of (48 + d)"

fun str_nat :: "nat \<Rightarrow> string" where
  "str_nat n = (if n < 10 then [digit_char n] else str_nat (n div 10) @ [digit_char (n mod 10)])"

declare str_nat.simps [simp del]

definition str_int :: "int \<Rightarrow> string" where
  "str_int i = (if i < 0 then CHR ''-'' # str_nat (nat (- i)) else str_nat (nat i))"

text \<open>
  \<open>os.path.splitext\<close> of the Python standard library (the POSIX version: separator
  \<open>/\<close>, no alternative separator). \<open>str.rfind\<close> gives the last index of a character or
  \<open>-1\<close>; the loop skips the dots that start the last path component.
\<close>

definition rfind :: "string \<Rightarrow> char \<Rightarrow> int" where
  "rfind p c =
     (case filter (\<lambda>i. p ! i = c) (rev [0..<length p]) of
        [] \<Rightarrow> - 1
      | i # _ \<Rightarrow> int i)"

function splitext_loop :: "string \<Rightarrow> nat \<Rightarrow> nat \<Rightarrow> string \<times> string" where
  "splitext_loop p filenameIndex dotIndex =
     (if filenameIndex < dotIndex
      then (if take 1 (drop filenameIndex p) \<noteq> ''.''
            then (take dotIndex p, drop dotIndex p)
            else splitext_loop p (filenameIndex + 1) dotIndex)
      else (p, []))"
  by pat_completeness auto
termination
  by (relation "measure (\<lambda>(p, filenameIndex, dotIndex). dotIndex - filenameIndex)") auto

declare splitext_loop.simps [simp del]

definition splitext :: "string \<Rightarrow> string \<times> string" where
  "splitext p =
     (let sepIndex = rfind p CHR ''/'';
          dotIndex = rfind p CHR ''.''
      in if dotIndex > sepIndex
         then splitext_loop p (nat (sepIndex + 1)) (nat dotIndex)
         else (p, []))"

section \<open>Data model\<close>

text \<open>
  An exception is known to the program by its class and by \<open>str(e)\<close>. \<open>Exception m\<close> is
  any exception of class \<open>Exception\<close> whose \<open>str\<close> is \<open>m\<close>; \<open>HTTPException status detail\<close>
  is the one FastAPI turns into a response. \<open>BaseException m\<close> is an exception outside the
  class \<open>Exception\<close>, such as \<open>asyncio.CancelledError\<close>, which the clause
  \<open>except Exception\<close> does not catch.
\<close>

datatype exn =
    HTTPException nat string
  | TypeError string
  | Exception string
  | BaseException string

fun is_Exception :: "exn \<Rightarrow> bool" where
  "is_Exception (HTTPException status detail) = True"
| "is_Exception (TypeError m) = True"
| "is_Exception (Exception m) = True"
| "is_Exception (BaseException m) = False"

fun str_exn :: "exn \<Rightarrow> string" where
  "str_exn (HTTPException status detail) = str_nat status @ '': '' @ detail"
| "str_exn (TypeError m) = m"
| "str_exn (Exception m) = m"
| "str_exn (BaseException m) = m"

text \<open>
  An \<open>UploadFile\<close>: its \<open>filename\<close> (\<open>None\<close> when the part has none) and what
  \<open>await file.read()\<close> does: \<open>Inl e\<close> raises the exception \<open>e\<close>, \<open>Inr b\<close> returns the
  bytes \<open>b\<close>. The \<open>await\<close> is where the cancellation of the request's task is delivered,
  so \<open>e\<close> may be outside the class \<open>Exception\<close>.
\<close>

record upload_file =
  filename :: "string option"
  read_result :: "exn + string"

text \<open>
  The dictionaries the program builds. \<open>'j\<close> is the type of parsed JSON values and \<open>'t\<close>
  the type of clock differences; both come from the environment.
\<close>

record ('j, 't) file_result =
  r_file_index :: int
  r_filename :: "string option"
  r_processing_method :: string
  r_processing_time :: 't
  r_data :: 'j

record file_error =
  e_file_index :: int
  e_filename :: "string option"
  e_error :: string

datatype ('j, 't) outcome =
    FileResult "('j, 't) file_result"
  | FileError file_error

record ('j, 't) batch_summary =
  total_files :: nat
  successful_extractions :: nat
  failed_extractions :: nat
  total_processing_time :: 't
  results :: "('j, 't) file_result list"
  errors :: "file_error list option"

text \<open>The \<open>errors\<close> key is absent when no file failed; then the collection is empty.\<close>

definition errors_of :: "('j, 't) batch_summary \<Rightarrow> file_error list" where
  "errors_of s = (case errors s of None \<Rightarrow> [] | Some es \<Rightarrow> es)"

section \<open>The world outside the program\<close>

text \<open>
  The effects of one call, in the order they happen, and the scratch files that exist
  under \<open>tmp/\<close>.
\<close>

datatype event =
    Read_upload "string option"
  | Open_write string
  | Upload_file string
  | Generate_content string
  | Delete_file string
  | Remove string

record world =
  fs :: "string set"
  trace :: "event list"

definition emit :: "event \<Rightarrow> world \<Rightarrow> world" where
  "emit e w = w\<lparr>trace := trace w @ [e]\<rparr>"

text \<open>
  What the environment does during one call of \<open>process_single_document\<close>. A field of
  type \<open>string option\<close> is \<open>Some m\<close> when the call raises an exception with message \<open>m\<close>;
  a sum is \<open>Inl m\<close> then, and \<open>Inr v\<close> when the call returns \<open>v\<close>.
  \<^item> \<open>uuid8\<close>: \<open>str(uuid.uuid4())[:8]\<close>;
  \<^item> \<open>open_exn\<close>, \<open>write_exn\<close>: \<open>open(temp_file_path, "wb")\<close> and \<open>f.write(content)\<close>;
  \<^item> \<open>upload_result\<close>: \<open>genai.upload_file\<close>, returning the remote file's name;
  \<^item> \<open>generate_exn\<close>: \<open>model.generate_content\<close>;
  \<^item> \<open>delete_exn\<close>: \<open>genai.delete_file\<close>;
  \<^item> \<open>response_text\<close>: the property \<open>response.text\<close>;
  \<^item> \<open>remove_exn\<close>: \<open>os.remove\<close>;
  \<^item> \<open>elapsed\<close>: \<open>time.time() - start_time\<close> at the end of a successful extraction.
\<close>

record 't call_env =
  uuid8 :: string
  open_exn :: "string option"
  write_exn :: "string option"
  upload_result :: "string + string"
  generate_exn :: "string option"
  delete_exn :: "string option"
  response_text :: "string + string"
  remove_exn :: "string option"
  elapsed :: 't

text \<open>
  What the environment does during one call of \<open>scan_documents\<close>: \<open>json.loads\<close>
  (\<open>Inl m\<close> when it raises), the behaviour during the call for each file index, the order
  in which the set \<open>allowed_extensions\<close> is iterated by \<open>join\<close>, the elapsed time of
  the whole call, and \<open>JSONResponse(content=response)\<close>, which serializes the dictionary
  and is \<open>Some m\<close> when that raises an exception with message \<open>m\<close> (a \<open>ValueError\<close> on a
  number that JSON cannot express, for instance).
\<close>

record ('j, 't) env =
  json_loads :: "string \<Rightarrow> string + 'j"
  calls :: "int \<Rightarrow> 't call_env"
  allowed_order :: "string list"
  total_elapsed :: 't
  json_response_exn :: "('j, 't) batch_summary \<Rightarrow> string option"

section \<open>process_single_document\<close>

text \<open>Lines 101 to 109: the text handed to \<open>json.loads\<close>.\<close>

definition normalize_response :: "string \<Rightarrow> string" where
  "normalize_response text =
     (let response_text = strip text;
          response_text =
            (if startswith response_text ''```json'' then drop 7 response_text
             else if startswith response_text ''```'' then drop 3 response_text
             else response_text);
          response_text =
            (if endswith response_text ''```''
             then take (length response_text - 3) response_text
             else response_text)
      in strip response_text)"

definition file_ext_of :: "string \<Rightarrow> string" where
  "file_ext_of name = lower (snd (splitext name))"

definition temp_file_path_of :: "string \<Rightarrow> int \<Rightarrow> string \<Rightarrow> string" where
  "temp_file_path_of tok file_index file_ext =
     ''tmp/'' @ (tok @ ''_'' @ str_int file_index) @ file_ext"

text \<open>
  Lines 91 to 121, the inner \<open>try\<close>: \<open>Inl m\<close> is the exception the inner handler raises
  again, with message \<open>m\<close>.
\<close>

definition direct_gemini ::
  "(string \<Rightarrow> string + 'j) \<Rightarrow> 't call_env \<Rightarrow> upload_file \<Rightarrow> int \<Rightarrow> string \<Rightarrow> world
     \<Rightarrow> (string + ('j, 't) file_result) \<times> world" where
  "direct_gemini loads ce file file_index temp_file_path w =
     (let failed = (\<lambda>m. Inl (''Direct Gemini processing failed: '' @ m));
          w1 = emit (Upload_file temp_file_path) w
      in case upload_result ce of
           Inl m \<Rightarrow> (failed m, w1)
         | Inr name \<Rightarrow>
             (let w2 = emit (Generate_content name) w1
              in case generate_exn ce of
                   Some m \<Rightarrow> (failed m, w2)
                 | None \<Rightarrow>
                     (let w3 = emit (Delete_file name) w2
                      in case delete_exn ce of
                           Some m \<Rightarrow> (failed m, w3)
                         | None \<Rightarrow>
                             (case response_text ce of
                                Inl m \<Rightarrow> (failed m, w3)
                              | Inr text \<Rightarrow>
                                  (case loads (normalize_response text) of
                                     Inl m \<Rightarrow> (failed m, w3)
                                   | Inr data \<Rightarrow>
                                       (Inr \<lparr>r_file_index = file_index,
                                             r_filename = filename file,
                                             r_processing_method = ''gemini_direct'',
                                             r_processing_time = elapsed ce,
                                             r_data = data\<rparr>, w3))))))"

text \<open>
  Lines 84 to 125, the body of the outer \<open>try\<close>: \<open>Inl e\<close> is the exception \<open>e\<close> raised
  in it. The calls after the read are synchronous and raise exceptions of class
  \<open>Exception\<close>.
\<close>

definition try_body ::
  "(string \<Rightarrow> string + 'j) \<Rightarrow> 't call_env \<Rightarrow> upload_file \<Rightarrow> int \<Rightarrow> string \<Rightarrow> string \<Rightarrow> world
     \<Rightarrow> (exn + ('j, 't) file_result) \<times> world" where
  "try_body loads ce file file_index file_ext temp_file_path w =
     (let w1 = emit (Read_upload (filename file)) w
      in case read_result file of
           Inl e \<Rightarrow> (Inl e, w1)
         | Inr content \<Rightarrow>
             (let w2 = emit (Open_write temp_file_path) w1
              in case open_exn ce of
                   Some m \<Rightarrow> (Inl (Exception m), w2)
                 | None \<Rightarrow>
                     (let w3 = w2\<lparr>fs := insert temp_file_path (fs w2)\<rparr>
                      in case write_exn ce of
                           Some m \<Rightarrow> (Inl (Exception m), w3)
                         | None \<Rightarrow>
                             (if file_ext = ''.pdf''
                              then (case direct_gemini loads ce file file_index temp_file_path w3 of
                                      (Inl m, w4) \<Rightarrow> (Inl (Exception m), w4)
                                    | (Inr result, w4) \<Rightarrow> (Inr result, w4))
                              else (Inl (Exception (''Only PDF files are supported for direct Gemini processing. Unsupported file type: '' @ file_ext)), w3)))))"

text \<open>Lines 130 to 136, the \<open>finally\<close> block.\<close>

definition cleanup :: "'t call_env \<Rightarrow> string \<Rightarrow> world \<Rightarrow> world" where
  "cleanup ce temp_file_path w =
     (if temp_file_path \<in> fs w
      then (let w1 = emit (Remove temp_file_path) w
            in case remove_exn ce of
                 Some m \<Rightarrow> w1
               | None \<Rightarrow> w1\<lparr>fs := fs w1 - {temp_file_path}\<rparr>)
      else w)"

text \<open>
  \<open>Inl e\<close> is an exception that leaves the function. \<open>os.path.splitext\<close> is called before
  the \<open>try\<close> and raises \<open>TypeError\<close> on \<open>None\<close>. The handler of line 127 catches the
  exceptions of class \<open>Exception\<close> only; any other one leaves the function after the
  \<open>finally\<close> block has run. The parameter \<open>gemini_only\<close> is not read.
\<close>

definition process_single_document ::
  "(string \<Rightarrow> string + 'j) \<Rightarrow> 't call_env \<Rightarrow> upload_file \<Rightarrow> bool \<Rightarrow> int \<Rightarrow> world
     \<Rightarrow> (exn + ('j, 't) outcome) \<times> world" where
  "process_single_document loads ce file gemini_only file_index w =
     (case filename file of
        None \<Rightarrow> (Inl (TypeError ''expected str, bytes or os.PathLike object, not NoneType''), w)
      | Some name \<Rightarrow>
          (let file_ext = file_ext_of name;
               temp_file_path = temp_file_path_of (uuid8 ce) file_index file_ext;
               (r, w1) = try_body loads ce file file_index file_ext temp_file_path w;
               w2 = cleanup ce temp_file_path w1
           in case r of
                Inr res \<Rightarrow> (Inr (FileResult res), w2)
              | Inl e \<Rightarrow>
                  (if is_Exception e
                   then (Inr (FileError \<lparr>e_file_index = file_index,
                                          e_filename = filename file,
                                          e_error = str_exn e\<rparr>), w2)
                   else (Inl e, w2))))"

section \<open>scan_documents\<close>

definition allowed_extensions :: "string set" where
  "allowed_extensions = {''.pdf'', ''.jpg'', ''.jpeg'', ''.png''}"

text \<open>Truth of \<open>file.filename\<close> and of \<open>f.filename and f.filename.strip()\<close>.\<close>

definition has_filename :: "upload_file \<Rightarrow> bool" where
  "has_filename f = (case filename f of None \<Rightarrow> False | Some name \<Rightarrow> name \<noteq> [])"

definition is_valid_file :: "upload_file \<Rightarrow> bool" where
  "is_valid_file f =
     (case filename f of None \<Rightarrow> False | Some name \<Rightarrow> name \<noteq> [] \<and> strip name \<noteq> [])"

definition valid_files_of :: "upload_file list \<Rightarrow> upload_file list" where
  "valid_files_of files = filter is_valid_file files"

text \<open>Lines 180 to 186: the first file with an extension outside the set stops the call.\<close>

fun validate_extensions :: "string list \<Rightarrow> upload_file list \<Rightarrow> exn option" where
  "validate_extensions order [] = None"
| "validate_extensions order (file # rest) =
     (case filename file of
        None \<Rightarrow> Some (TypeError ''expected str, bytes or os.PathLike object, not NoneType'')
      | Some name \<Rightarrow>
          (let file_ext = file_ext_of name
           in if file_ext \<notin> allowed_extensions
              then Some (HTTPException 400
                     (''Unsupported file type: '' @ file_ext @ ''. Allowed: '' @ join '', '' order))
              else validate_extensions order rest))"

fun enumerate :: "int \<Rightarrow> 'a list \<Rightarrow> (int \<times> 'a) list" where
  "enumerate i [] = []"
| "enumerate i (x # xs) = (i, x) # enumerate (i + 1) xs"

text \<open>
  Lines 192 to 210: the loop over \<open>enumerate(valid_files)\<close>, with the two lists. The
  handler of line 207 catches the exceptions of class \<open>Exception\<close> only; any other one
  ends the loop and leaves \<open>scan_documents\<close>.
\<close>

fun scan_loop ::
  "('j, 't) env \<Rightarrow> bool \<Rightarrow> (int \<times> upload_file) list
     \<Rightarrow> ('j, 't) file_result list \<Rightarrow> file_error list \<Rightarrow> world
     \<Rightarrow> (exn + ('j, 't) file_result list \<times> file_error list) \<times> world" where
  "scan_loop E gemini_only [] rs es w = (Inr (rs, es), w)"
| "scan_loop E gemini_only ((file_index, file) # rest) rs es w =
     (case process_single_document (json_loads E) (calls E file_index) file gemini_only file_index w of
        (Inr (FileError result), w') \<Rightarrow>
          scan_loop E gemini_only rest rs
            (es @ [\<lparr>e_file_index = file_index, e_filename = filename file,
                    e_error = e_error result\<rparr>]) w'
      | (Inr (FileResult result), w') \<Rightarrow>
          scan_loop E gemini_only rest (rs @ [result]) es w'
      | (Inl e, w') \<Rightarrow>
          (if is_Exception e
           then scan_loop E gemini_only rest rs
                  (es @ [\<lparr>e_file_index = file_index, e_filename = filename file,
                          e_error = str_exn e\<rparr>]) w'
           else (Inl e, w')))"

text \<open>
  Lines 166 to 226. The value returned is the content of the \<open>JSONResponse\<close>; building
  it at line 226 is outside every \<open>try\<close>.
\<close>

definition scan_documents ::
  "('j, 't) env \<Rightarrow> upload_file list \<Rightarrow> bool \<Rightarrow> world
     \<Rightarrow> (exn + ('j, 't) batch_summary) \<times> world" where
  "scan_documents E files gemini_only w =
     (if files = [] \<or> list_all (\<lambda>file. \<not> has_filename file) files
      then (Inl (HTTPException 400 ''No valid files uploaded''), w)
      else
        (let valid_files = valid_files_of files
         in if valid_files = []
            then (Inl (HTTPException 400 ''No valid files to process''), w)
            else
              (case validate_extensions (allowed_order E) valid_files of
                 Some e \<Rightarrow> (Inl e, w)
               | None \<Rightarrow>
                   (case scan_loop E gemini_only (enumerate 0 valid_files) [] [] w of
                      (Inl e, w') \<Rightarrow> (Inl e, w')
                    | (Inr (rs, es), w') \<Rightarrow>
                        (let response =
                               \<lparr>total_files = length valid_files,
                                successful_extractions = length rs,
                                failed_extractions = length es,
                                total_processing_time = total_elapsed E,
                                results = rs,
                                errors = (if es = [] then None else Some es)\<rparr>
                         in case json_response_exn E response of
                              Some m \<Rightarrow> (Inl (Exception m), w')
                            | None \<Rightarrow> (Inr response, w'))))))"

section \<open>Auxiliary notions for the proofs\<close>

text \<open>
  How the loop splits a list of files, numbered from \<open>i\<close>, into results and errors: each
  file gives one entry, with its number and its filename, at the end of one of the lists.
\<close>

inductive partitioned ::
  "int \<Rightarrow> upload_file list \<Rightarrow> ('j, 't) file_result list \<Rightarrow> file_error list \<Rightarrow> bool" where
  p_nil: "partitioned i [] [] []"
| p_res: "r_file_index r = i \<Longrightarrow> r_filename r = filename x \<Longrightarrow> partitioned (i + 1) xs rs es
          \<Longrightarrow> partitioned i (x # xs) (r # rs) es"
| p_err: "e_file_index e = i \<Longrightarrow> e_filename e = filename x \<Longrightarrow> partitioned (i + 1) xs rs es
          \<Longrightarrow> partitioned i (x # xs) rs (e # es)"

text \<open>
  Notions used to state the properties: the upload was read and written to the scratch
  file without an exception, and the two fixed message texts of lines 121 and 124.
\<close>

definition staged :: "upload_file \<Rightarrow> 't call_env \<Rightarrow> bool" where
  "staged file ce =
     ((case read_result file of Inl m \<Rightarrow> False | Inr content \<Rightarrow> True) \<and>
      open_exn ce = None \<and> write_exn ce = None)"

definition failed_prefix :: string where
  "failed_prefix = ''Direct Gemini processing failed: ''"


text \<open>A filename that is missing, empty or made of whitespace only.\<close>

definition blank_filename :: "upload_file \<Rightarrow> bool" where
  "blank_filename f =
     (case filename f of None \<Rightarrow> True | Some name \<Rightarrow> list_all isspace name)"

text \<open>The upload was read and \<open>open\<close> created the scratch file.\<close>

definition opened :: "upload_file \<Rightarrow> 't call_env \<Rightarrow> bool" where
  "opened file ce =
     ((case read_result file of Inl m \<Rightarrow> False | Inr content \<Rightarrow> True) \<and> open_exn ce = None)"

text \<open>The filenames of the uploads read so far, in the order of the reads.\<close>

fun read_of :: "event \<Rightarrow> string option list" where
  "read_of (Read_upload name) = [name]"
| "read_of (Open_write p) = []"
| "read_of (Upload_file p) = []"
| "read_of (Generate_content n) = []"
| "read_of (Delete_file n) = []"
| "read_of (Remove p) = []"

definition reads :: "world \<Rightarrow> string option list" where
  "reads w = concat (map read_of (trace w))"


section \<open>A sample environment\<close>

text \<open>
  Concrete inputs for the examples: a service that answers every request with a fenced
  JSON text, and a parser that knows this one document and rejects any other text.
\<close>

definition flight_text :: string where
  "flight_text = ''{\"document_type\":\"Flight\"}''"

definition fenced_flight_text :: string where
  "fenced_flight_text = ''```json'' @ [CHR 0x0A] @ flight_text @ [CHR 0x0A] @ ''```''"

definition sample_loads :: "string \<Rightarrow> string + (string \<times> string) list" where
  "sample_loads s =
     (if s = flight_text then Inr [(''document_type'', ''Flight'')]
      else Inl ''Expecting value: line 1 column 1 (char 0)'')"

definition sample_call :: "nat call_env" where
  "sample_call =
     \<lparr>uuid8 = ''1b9d6bcd'', open_exn = None, write_exn = None,
      upload_result = Inr ''files/abc-123'', generate_exn = None, delete_exn = None,
      response_text = Inr fenced_flight_text, remove_exn = None, elapsed = 2\<rparr>"

definition sample_env :: "((string \<times> string) list, nat) env" where
  "sample_env =
     \<lparr>json_loads = sample_loads, calls = (\<lambda>i. sample_call),
      allowed_order = [''.png'', ''.jpg'', ''.pdf'', ''.jpeg''], total_elapsed = 3,
      json_response_exn = (\<lambda>response. None)\<rparr>"

definition empty_world :: world where
  "empty_world = \<lparr>fs = {}, trace = []\<rparr>"

definition upload :: "string \<Rightarrow> upload_file" where
  "upload name = \<lparr>filename = Some name, read_result = Inr ''%PDF-1.4''\<rparr>"

section \<open>Properties of process_single_document\<close>

lemma direct_gemini_Inr:
  "direct_gemini loads ce file i p w = (Inr r, w') \<Longrightarrow>
     r_file_index r = i \<and> r_filename r = filename file"
  by (auto simp: direct_gemini_def Let_def split: sum.splits option.splits)

lemma try_body_Inr:
  "try_body loads ce file i ext p w = (Inr r, w') \<Longrightarrow>
     r_file_index r = i \<and> r_filename r = filename file"
  by (auto simp: try_body_def Let_def split: sum.splits option.splits if_splits prod.splits
           dest: direct_gemini_Inr)

lemma process_single_document_Some:
  assumes "filename file = Some name"
  shows "process_single_document loads ce file g i w =
     ((case fst (try_body loads ce file i (file_ext_of name)
                  (temp_file_path_of (uuid8 ce) i (file_ext_of name)) w) of
         Inr res \<Rightarrow> Inr (FileResult res)
       | Inl e \<Rightarrow>
           if is_Exception e
           then Inr (FileError \<lparr>e_file_index = i, e_filename = Some name, e_error = str_exn e\<rparr>)
           else Inl e),
      cleanup ce (temp_file_path_of (uuid8 ce) i (file_ext_of name))
        (snd (try_body loads ce file i (file_ext_of name)
                  (temp_file_path_of (uuid8 ce) i (file_ext_of name)) w)))"
  using assms
  by (simp add: process_single_document_def Let_def split: prod.splits sum.splits)

lemma process_FileResult:
  "process_single_document loads ce file g i w = (Inr (FileResult r), w') \<Longrightarrow>
     r_file_index r = i \<and> r_filename r = filename file"
  by (auto simp: process_single_document_def Let_def
           split: option.splits prod.splits sum.splits if_splits
           dest: try_body_Inr)

lemma process_flag_irrelevant:
  "process_single_document loads ce file g i w = process_single_document loads ce file g' i w"
  by (simp add: process_single_document_def)

section \<open>Properties of the loop\<close>

lemma scan_loop_flag_irrelevant:
  "scan_loop E g xs rs es w = scan_loop E g' xs rs es w"
proof (induction xs arbitrary: rs es w)
  case Nil
  show ?case by simp
next
  case (Cons a xs)
  obtain i f where a: "a = (i, f)" by (cases a)
  have "process_single_document (json_loads E) (calls E i) f g i w =
        process_single_document (json_loads E) (calls E i) f g' i w"
    by (rule process_flag_irrelevant)
  with Cons.IH show ?case
    by (simp add: a split: prod.splits sum.splits outcome.splits)
qed

text \<open>The loop is left by an exception only when it is outside the class \<open>Exception\<close>.\<close>

lemma scan_loop_Inl:
  "scan_loop E g xs rs es w = (Inl e, w') \<Longrightarrow> \<not> is_Exception e"
proof (induction xs arbitrary: rs es w)
  case Nil
  then show ?case by simp
next
  case (Cons a xs)
  obtain i f where a: "a = (i, f)" by (cases a)
  from Cons.prems Cons.IH show ?case
    by (auto simp: a split: prod.splits sum.splits outcome.splits if_splits)
qed

lemma scan_loop_partitioned:
  "scan_loop E g (enumerate i xs) rs es w = (Inr (rs', es'), w') \<Longrightarrow>
     \<exists>rs2 es2. rs' = rs @ rs2 \<and> es' = es @ es2 \<and> partitioned i xs rs2 es2"
proof (induction xs arbitrary: i rs es w)
  case Nil
  then show ?case by (auto intro: p_nil)
next
  case (Cons x xs)
  obtain res w1 where P: "process_single_document (json_loads E) (calls E i) x g i w = (res, w1)"
    by (cases "process_single_document (json_loads E) (calls E i) x g i w") auto
  show ?case
  proof (cases res)
    case (Inl e)
    let ?e = "\<lparr>e_file_index = i, e_filename = filename x, e_error = str_exn e\<rparr>"
    from Inl Cons.prems P have
      "scan_loop E g (enumerate (i + 1) xs) rs (es @ [?e]) w1 = (Inr (rs', es'), w')"
      by (simp split: if_splits)
    from Cons.IH[OF this] obtain rs2 es2 where
      "rs' = rs @ rs2" "es' = (es @ [?e]) @ es2" "partitioned (i + 1) xs rs2 es2"
      by blast
    then show ?thesis
      by (intro exI[of _ rs2] exI[of _ "?e # es2"]) (auto intro: p_err)
  next
    case (Inr out)
    show ?thesis
    proof (cases out)
      case (FileResult r)
      with Inr Cons.prems P have
        "scan_loop E g (enumerate (i + 1) xs) (rs @ [r]) es w1 = (Inr (rs', es'), w')"
        by simp
      from Cons.IH[OF this] obtain rs2 es2 where
        "rs' = (rs @ [r]) @ rs2" "es' = es @ es2" "partitioned (i + 1) xs rs2 es2"
        by blast
      moreover from P Inr FileResult have "r_file_index r = i \<and> r_filename r = filename x"
        by (auto dest: process_FileResult)
      ultimately show ?thesis
        by (intro exI[of _ "r # rs2"] exI[of _ es2]) (auto intro: p_res)
    next
      case (FileError e0)
      let ?e = "\<lparr>e_file_index = i, e_filename = filename x, e_error = e_error e0\<rparr>"
      from FileError Inr Cons.prems P have
        "scan_loop E g (enumerate (i + 1) xs) rs (es @ [?e]) w1 = (Inr (rs', es'), w')"
        by simp
      from Cons.IH[OF this] obtain rs2 es2 where
        "rs' = rs @ rs2" "es' = (es @ [?e]) @ es2" "partitioned (i + 1) xs rs2 es2"
        by blast
      then show ?thesis
        by (intro exI[of _ rs2] exI[of _ "?e # es2"]) (auto intro: p_err)
    qed
  qed
qed

lemma partitioned_length: "partitioned i xs rs es \<Longrightarrow> length rs + length es = length xs"
  by (induction rule: partitioned.induct) auto

lemma partitioned_range:
  "partitioned i xs rs es \<Longrightarrow>
     set (map r_file_index rs) \<union> set (map e_file_index es) = {i ..< i + int (length xs)}"
  by (induction rule: partitioned.induct) auto

lemma partitioned_res_sorted:
  "partitioned i xs rs es \<Longrightarrow> sorted_wrt (<) (map r_file_index rs)"
proof (induction rule: partitioned.induct)
  case (p_res r i x xs rs es)
  from partitioned_range[OF p_res.hyps(3)] have "\<forall>j \<in> set (map r_file_index rs). i + 1 \<le> j"
    by auto
  with p_res show ?case by auto
qed auto

lemma partitioned_err_sorted:
  "partitioned i xs rs es \<Longrightarrow> sorted_wrt (<) (map e_file_index es)"
proof (induction rule: partitioned.induct)
  case (p_err e i x xs rs es)
  from partitioned_range[OF p_err.hyps(3)] have "\<forall>j \<in> set (map e_file_index es). i + 1 \<le> j"
    by auto
  with p_err show ?case by auto
qed auto

lemma partitioned_disjoint:
  "partitioned i xs rs es \<Longrightarrow> set (map r_file_index rs) \<inter> set (map e_file_index es) = {}"
proof (induction rule: partitioned.induct)
  case (p_res r i x xs rs es)
  from partitioned_range[OF p_res.hyps(3)] have "\<forall>j \<in> set (map e_file_index es). i + 1 \<le> j"
    by auto
  with p_res show ?case by auto
next
  case (p_err e i x xs rs es)
  from partitioned_range[OF p_err.hyps(3)] have "\<forall>j \<in> set (map r_file_index rs). i + 1 \<le> j"
    by auto
  with p_err show ?case by auto
qed auto

lemma partitioned_filenames:
  "partitioned i xs rs es \<Longrightarrow>
     (\<forall>r \<in> set rs. r_filename r = filename (xs ! nat (r_file_index r - i))) \<and>
     (\<forall>e \<in> set es. e_filename e = filename (xs ! nat (e_file_index e - i)))"
proof (induction rule: partitioned.induct)
  case p_nil
  then show ?case by simp
next
  case (p_res r i x xs rs es)
  from partitioned_range[OF p_res.hyps(3)]
  have R: "\<forall>r \<in> set rs. i + 1 \<le> r_file_index r" "\<forall>e \<in> set es. i + 1 \<le> e_file_index e"
    by auto
  have N: "(x # xs) ! nat (j - i) = xs ! nat (j - (i + 1))" if "i + 1 \<le> j" for j
  proof -
    from that have "nat (j - i) = Suc (nat (j - (i + 1)))" by linarith
    then show ?thesis by simp
  qed
  from p_res R N show ?case by auto
next
  case (p_err e i x xs rs es)
  from partitioned_range[OF p_err.hyps(3)]
  have R: "\<forall>r \<in> set rs. i + 1 \<le> r_file_index r" "\<forall>e \<in> set es. i + 1 \<le> e_file_index e"
    by auto
  have N: "(x # xs) ! nat (j - i) = xs ! nat (j - (i + 1))" if "i + 1 \<le> j" for j
  proof -
    from that have "nat (j - i) = Suc (nat (j - (i + 1)))" by linarith
    then show ?thesis by simp
  qed
  from p_err R N show ?case by auto
qed

section \<open>Properties of scan_documents\<close>

text \<open>A call that returns a summary has passed the three checks and run the loop.\<close>

lemma scan_documents_Inr:
  assumes "scan_documents E files g w = (Inr s, w')"
  shows "\<exists>rs es. partitioned 0 (valid_files_of files) rs es \<and>
           scan_loop E g (enumerate 0 (valid_files_of files)) [] [] w = (Inr (rs, es), w') \<and>
           validate_extensions (allowed_order E) (valid_files_of files) = None \<and>
           valid_files_of files \<noteq> [] \<and>
           json_response_exn E s = None \<and>
           s = \<lparr>total_files = length (valid_files_of files),
                successful_extractions = length rs,
                failed_extractions = length es,
                total_processing_time = total_elapsed E,
                results = rs,
                errors = (if es = [] then None else Some es)\<rparr>"
proof -
  from assms obtain rs es where L:
    "scan_loop E g (enumerate 0 (valid_files_of files)) [] [] w = (Inr (rs, es), w')"
    by (auto simp: scan_documents_def Let_def
             split: if_splits option.splits prod.splits sum.splits)
  from scan_loop_partitioned[OF L] have "partitioned 0 (valid_files_of files) rs es"
    by simp
  with assms L show ?thesis
    by (auto simp: scan_documents_def Let_def split: if_splits option.splits)
qed

lemma errors_of_summary [simp]:
  "errors_of \<lparr>total_files = n, successful_extractions = a, failed_extractions = b,
              total_processing_time = t, results = rs,
              errors = (if es = [] then None else Some es)\<rparr> = es"
  by (simp add: errors_of_def)

text \<open>
  C1. Whenever \<open>scan_documents\<close> returns a summary, the two counters are the lengths of
  \<open>results\<close> and \<open>errors\<close> and add up to \<open>total_files\<close>, no file index occurs twice in
  the two collections together, and the indices that occur are exactly
  \<open>0, ..., total_files - 1\<close>.
\<close>

theorem scan_partitions_file_indices:
  assumes "scan_documents E files gemini_only w = (Inr s, w')"
  shows "successful_extractions s = length (results s) \<and>
         failed_extractions s = length (errors_of s) \<and>
         successful_extractions s + failed_extractions s = total_files s \<and>
         distinct (map r_file_index (results s) @ map e_file_index (errors_of s)) \<and>
         set (map r_file_index (results s)) \<union> set (map e_file_index (errors_of s))
           = {0 ..< int (total_files s)}"
proof -
  from scan_documents_Inr[OF assms] obtain rs es where
    P: "partitioned 0 (valid_files_of files) rs es" and
    s: "s = \<lparr>total_files = length (valid_files_of files),
             successful_extractions = length rs,
             failed_extractions = length es,
             total_processing_time = total_elapsed E,
             results = rs,
             errors = (if es = [] then None else Some es)\<rparr>"
    by blast
  have e: "errors_of s = es" and r: "results s = rs"
    and t: "total_files s = length (valid_files_of files)"
    and c: "successful_extractions s = length rs" "failed_extractions s = length es"
    by (simp_all add: s)
  have d1: "distinct (map r_file_index rs)"
    using partitioned_res_sorted[OF P] by (simp add: strict_sorted_iff)
  have d2: "distinct (map e_file_index es)"
    using partitioned_err_sorted[OF P] by (simp add: strict_sorted_iff)
  have d: "distinct (map r_file_index rs @ map e_file_index es)"
    using d1 d2 partitioned_disjoint[OF P] by simp
  show ?thesis
    using partitioned_length[OF P] partitioned_range[OF P] d
    by (simp add: e r t c)
qed

theorem scan_partitions_file_indices_witness:
  "scan_documents sample_env [upload ''a.pdf'', upload ''b.png''] False empty_world =
     (Inr \<lparr>total_files = 2, successful_extractions = 1, failed_extractions = 1,
           total_processing_time = 3,
           results = [\<lparr>r_file_index = 0, r_filename = Some ''a.pdf'',
                      r_processing_method = ''gemini_direct'', r_processing_time = 2,
                      r_data = [(''document_type'', ''Flight'')]\<rparr>],
           errors = Some [\<lparr>e_file_index = 1, e_filename = Some ''b.png'',
                           e_error = ''Only PDF files are supported for direct Gemini processing. Unsupported file type: .png''\<rparr>]\<rparr>,
      \<lparr>fs = {},
        trace = [Read_upload (Some ''a.pdf''), Open_write ''tmp/1b9d6bcd_0.pdf'',
                 Upload_file ''tmp/1b9d6bcd_0.pdf'', Generate_content ''files/abc-123'',
                 Delete_file ''files/abc-123'', Remove ''tmp/1b9d6bcd_0.pdf'',
                 Read_upload (Some ''b.png''), Open_write ''tmp/1b9d6bcd_1.png'',
                 Remove ''tmp/1b9d6bcd_1.png'']\<rparr>) \<and>
   distinct ([0, 1 :: int]) \<and> set [0 :: int] \<union> set [1] = {0 ..< int 2}"
proof -
  have run: "scan_documents sample_env [upload ''a.pdf'', upload ''b.png''] False empty_world =
     (Inr \<lparr>total_files = 2, successful_extractions = 1, failed_extractions = 1,
           total_processing_time = 3,
           results = [\<lparr>r_file_index = 0, r_filename = Some ''a.pdf'',
                      r_processing_method = ''gemini_direct'', r_processing_time = 2,
                      r_data = [(''document_type'', ''Flight'')]\<rparr>],
           errors = Some [\<lparr>e_file_index = 1, e_filename = Some ''b.png'',
                           e_error = ''Only PDF files are supported for direct Gemini processing. Unsupported file type: .png''\<rparr>]\<rparr>,
      \<lparr>fs = {},
        trace = [Read_upload (Some ''a.pdf''), Open_write ''tmp/1b9d6bcd_0.pdf'',
                 Upload_file ''tmp/1b9d6bcd_0.pdf'', Generate_content ''files/abc-123'',
                 Delete_file ''files/abc-123'', Remove ''tmp/1b9d6bcd_0.pdf'',
                 Read_upload (Some ''b.png''), Open_write ''tmp/1b9d6bcd_1.png'',
                 Remove ''tmp/1b9d6bcd_1.png'']\<rparr>)"
    by code_simp
  from scan_partitions_file_indices[OF run] show ?thesis
    using run by (simp add: errors_of_def)
qed

text \<open>
  C6. \<open>gemini_only\<close> is never read: with the same files, the same environment and the
  same starting world, \<open>process_single_document\<close> and \<open>scan_documents\<close> return the same
  value and leave the same world for any two values of the flag.
\<close>

theorem gemini_only_inert:
  "process_single_document loads ce file True i w = process_single_document loads ce file False i w \<and>
   scan_documents E files True w = scan_documents E files False w"
proof
  show "process_single_document loads ce file True i w = process_single_document loads ce file False i w"
    by (rule process_flag_irrelevant)
next
  have "scan_loop E True = scan_loop E False"
    by (intro ext) (rule scan_loop_flag_irrelevant)
  then show "scan_documents E files True w = scan_documents E files False w"
    by (simp only: scan_documents_def)
qed





lemma try_body_pdf:
  "staged file ce \<Longrightarrow>
     fst (try_body loads ce file i ''.pdf'' p w) =
     (case fst (direct_gemini loads ce file i p
            ((emit (Open_write p) (emit (Read_upload (filename file)) w))
               \<lparr>fs := insert p (fs w)\<rparr>)) of
        Inl m \<Rightarrow> Inl (Exception m)
      | Inr result \<Rightarrow> Inr result)"
  by (auto simp: try_body_def staged_def Let_def emit_def split: sum.splits prod.splits)






lemma direct_gemini_parse_fails:
  "upload_result ce = Inr nm \<Longrightarrow> generate_exn ce = None \<Longrightarrow> delete_exn ce = None \<Longrightarrow>
   response_text ce = Inr t \<Longrightarrow> loads (normalize_response t) = Inl m \<Longrightarrow>
     fst (direct_gemini loads ce file i p w) = Inl (failed_prefix @ m)"
  by (simp add: direct_gemini_def failed_prefix_def Let_def)

lemma direct_gemini_succeeds:
  "upload_result ce = Inr nm \<Longrightarrow> generate_exn ce = None \<Longrightarrow> delete_exn ce = None \<Longrightarrow>
   response_text ce = Inr t \<Longrightarrow> loads (normalize_response t) = Inr d \<Longrightarrow>
     fst (direct_gemini loads ce file i p w) =
       Inr \<lparr>r_file_index = i, r_filename = filename file,
            r_processing_method = ''gemini_direct'', r_processing_time = elapsed ce,
            r_data = d\<rparr>"
  by (simp add: direct_gemini_def Let_def)

lemma process_outcome:
  assumes "filename file = Some name"
  shows "fst (process_single_document loads ce file g i w) =
     (case fst (try_body loads ce file i (file_ext_of name)
                  (temp_file_path_of (uuid8 ce) i (file_ext_of name)) w) of
        Inr res \<Rightarrow> Inr (FileResult res)
      | Inl e \<Rightarrow>
          if is_Exception e
          then Inr (FileError \<lparr>e_file_index = i, e_filename = Some name, e_error = str_exn e\<rparr>)
          else Inl e)"
  by (simp add: process_single_document_Some[OF assms])









lemma strip_Nil_iff: "strip s = [] \<longleftrightarrow> (\<forall>c \<in> set s. isspace c)"
proof
  assume "strip s = []"
  then have "\<forall>c \<in> set (dropWhile isspace s). isspace c"
    by (simp add: strip_def dropWhile_eq_Nil_conv)
  then have "dropWhile isspace s = []"
    using hd_dropWhile[of isspace s] by (cases "dropWhile isspace s") auto
  then show "\<forall>c \<in> set s. isspace c"
    by (simp add: dropWhile_eq_Nil_conv)
next
  assume "\<forall>c \<in> set s. isspace c"
  then have "dropWhile isspace s = []" by (simp add: dropWhile_eq_Nil_conv)
  then show "strip s = []" by (simp add: strip_def del: dropWhile_eq_Nil_conv)
qed

lemma is_valid_file_iff: "is_valid_file f \<longleftrightarrow> \<not> blank_filename f"
  by (auto simp: is_valid_file_def blank_filename_def strip_Nil_iff list_all_iff
           split: option.splits)

lemma valid_files_of_blank: "valid_files_of files = filter (\<lambda>f. \<not> blank_filename f) files"
proof -
  have "is_valid_file = (\<lambda>f. \<not> blank_filename f)"
    by (rule ext) (rule is_valid_file_iff)
  then show ?thesis by (simp add: valid_files_of_def)
qed

lemma is_valid_has_filename: "is_valid_file f \<Longrightarrow> has_filename f"
  by (auto simp: is_valid_file_def has_filename_def split: option.splits)

lemma first_check_passes:
  "valid_files_of files \<noteq> [] \<Longrightarrow>
     \<not> (files = [] \<or> list_all (\<lambda>file. \<not> has_filename file) files)"
  by (auto simp: valid_files_of_def filter_empty_conv list_all_iff dest: is_valid_has_filename)

lemma first_check_fails:
  "files = [] \<or> list_all (\<lambda>file. \<not> has_filename file) files \<Longrightarrow> valid_files_of files = []"
  using first_check_passes by blast


lemma scan_documents_valid:
  assumes "valid_files_of files \<noteq> []"
  shows "scan_documents E files g w =
     (case validate_extensions (allowed_order E) (valid_files_of files) of
        Some e \<Rightarrow> (Inl e, w)
      | None \<Rightarrow>
          (case scan_loop E g (enumerate 0 (valid_files_of files)) [] [] w of
             (Inl e, w') \<Rightarrow> (Inl e, w')
           | (Inr (rs, es), w') \<Rightarrow>
               (let response =
                      \<lparr>total_files = length (valid_files_of files),
                       successful_extractions = length rs,
                       failed_extractions = length es,
                       total_processing_time = total_elapsed E,
                       results = rs,
                       errors = (if es = [] then None else Some es)\<rparr>
                in case json_response_exn E response of
                     Some m \<Rightarrow> (Inl (Exception m), w')
                   | None \<Rightarrow> (Inr response, w'))))"
  using assms first_check_passes[OF assms]
  by (simp add: scan_documents_def Let_def)




lemma validate_extensions_detail:
  assumes "validate_extensions order xs = Some (HTTPException status detail)"
  shows "take 1 detail = ''U''"
  using assms
  by (induction xs) (auto simp: Let_def split: option.splits if_splits)

lemma scan_documents_blank:
  assumes "valid_files_of files = []"
  shows "scan_documents E files g w =
     (Inl (HTTPException 400
        (if files = [] \<or> list_all (\<lambda>file. \<not> has_filename file) files
         then ''No valid files uploaded'' else ''No valid files to process'')), w)"
  using assms by (simp add: scan_documents_def Let_def)

text \<open>
  C10, as amended. \<open>scan_documents\<close> raises one of the two empty-batch exceptions exactly
  when every entry of the list (if any) has a filename that is missing, empty or made of
  whitespace only. It then leaves the world as it was. The detail is
  \<open>No valid files uploaded\<close> when the list is empty or every filename is missing or empty,
  and \<open>No valid files to process\<close> otherwise.
\<close>

theorem scan_empty_batch:
  "(fst (scan_documents E files gemini_only w) \<in>
      {Inl (HTTPException 400 ''No valid files uploaded''),
       Inl (HTTPException 400 ''No valid files to process'')}
    \<longleftrightarrow> list_all blank_filename files) \<and>
   (list_all blank_filename files \<longrightarrow>
      scan_documents E files gemini_only w =
        (Inl (HTTPException 400
           (if files = [] \<or> list_all (\<lambda>file. \<not> has_filename file) files
            then ''No valid files uploaded'' else ''No valid files to process'')), w))"
proof -
  have B: "list_all blank_filename files \<longleftrightarrow> valid_files_of files = []"
    by (auto simp: valid_files_of_blank filter_empty_conv list_all_iff)
  show ?thesis
  proof (cases "valid_files_of files = []")
    case True
    with B scan_documents_blank[OF True, of E gemini_only w] show ?thesis
      by auto
  next
    case False
    have "fst (scan_documents E files gemini_only w) \<notin>
      {Inl (HTTPException 400 ''No valid files uploaded''),
       Inl (HTTPException 400 ''No valid files to process'')}"
    proof (cases "validate_extensions (allowed_order E) (valid_files_of files)")
      case None
      obtain r w1 where L:
        "scan_loop E gemini_only (enumerate 0 (valid_files_of files)) [] [] w = (r, w1)"
        by (metis surj_pair)
      show ?thesis
      proof (cases r)
        case (Inl e)
        with L have "\<not> is_Exception e" by (auto dest: scan_loop_Inl)
        then have "e \<noteq> HTTPException 400 ''No valid files uploaded''"
          "e \<noteq> HTTPException 400 ''No valid files to process''"
          by auto
        with None L Inl show ?thesis
          by (simp add: scan_documents_valid[OF False])
      next
        case (Inr p)
        with None L show ?thesis
          by (simp add: scan_documents_valid[OF False] Let_def split: prod.splits option.splits)
      qed
    next
      case (Some e)
      have "e \<noteq> HTTPException 400 ''No valid files uploaded''"
        "e \<noteq> HTTPException 400 ''No valid files to process''"
        using validate_extensions_detail Some by fastforce+
      with Some show ?thesis
        by (simp add: scan_documents_valid[OF False])
    qed
    with B False show ?thesis by simp
  qed
qed

theorem scan_empty_batch_witness:
  "list_all blank_filename [upload '''', \<lparr>filename = None, read_result = Inr []\<rparr>] \<and>
   scan_documents sample_env [upload '''', \<lparr>filename = None, read_result = Inr []\<rparr>] False
       empty_world =
     (Inl (HTTPException 400 ''No valid files uploaded''), empty_world)"
proof -
  have b: "list_all blank_filename [upload '''', \<lparr>filename = None, read_result = Inr []\<rparr>]"
    by code_simp
  have c: "[upload '''', \<lparr>filename = None, read_result = Inr []\<rparr>] = [] \<or>
           list_all (\<lambda>file. \<not> has_filename file) [upload '''', \<lparr>filename = None, read_result = Inr []\<rparr>]"
    by code_simp
  from scan_empty_batch[of sample_env "[upload '''', \<lparr>filename = None, read_result = Inr []\<rparr>]"
      False empty_world] b c
  show ?thesis by simp
qed

text \<open>
  The claim as stated fails on a list whose only entry has the filename of one space: the
  list is not empty, the filename is neither missing nor empty, and the call is rejected.
\<close>

theorem empty_batch_counterexample:
  "[upload '' ''] \<noteq> [] \<and> filename (upload '' '') = Some '' '' \<and> '' '' \<noteq> [] \<and>
   scan_documents sample_env [upload '' ''] False empty_world =
     (Inl (HTTPException 400 ''No valid files to process''), empty_world)"
  by code_simp

text \<open>
  C8, as amended. The files that are kept are those whose filename is present and not made
  of whitespace only, in their order in the input; the others are neither counted nor
  reported. \<open>total_files\<close> is the number of kept files, every entry of \<open>results\<close> and
  of \<open>errors\<close> carries the position of its file among the kept files and that file's
  filename, and each of the two lists is in strictly ascending order of \<open>file_index\<close>.
\<close>

theorem scan_indices_follow_kept_order:
  assumes "scan_documents E files gemini_only w = (Inr s, w')"
  shows "total_files s = length (filter (\<lambda>f. \<not> blank_filename f) files) \<and>
         (\<forall>r \<in> set (results s).
            0 \<le> r_file_index r \<and> r_file_index r < int (total_files s) \<and>
            r_filename r =
              filename (filter (\<lambda>f. \<not> blank_filename f) files ! nat (r_file_index r))) \<and>
         (\<forall>e \<in> set (errors_of s).
            0 \<le> e_file_index e \<and> e_file_index e < int (total_files s) \<and>
            e_filename e =
              filename (filter (\<lambda>f. \<not> blank_filename f) files ! nat (e_file_index e))) \<and>
         sorted_wrt (<) (map r_file_index (results s)) \<and>
         sorted_wrt (<) (map e_file_index (errors_of s))"
proof -
  let ?kept = "filter (\<lambda>f. \<not> blank_filename f) files"
  from scan_documents_Inr[OF assms] obtain rs es where
    P: "partitioned 0 ?kept rs es" and
    s: "s = \<lparr>total_files = length ?kept,
             successful_extractions = length rs,
             failed_extractions = length es,
             total_processing_time = total_elapsed E,
             results = rs,
             errors = (if es = [] then None else Some es)\<rparr>"
    by (auto simp: valid_files_of_blank)
  have e: "errors_of s = es" and r: "results s = rs" and t: "total_files s = length ?kept"
    by (simp_all add: s)
  from partitioned_range[OF P]
  have R: "\<forall>r \<in> set rs. 0 \<le> r_file_index r \<and> r_file_index r < int (length ?kept)"
    and E: "\<forall>e \<in> set es. 0 \<le> e_file_index e \<and> e_file_index e < int (length ?kept)"
    by auto
  from partitioned_filenames[OF P]
  have F: "\<forall>r \<in> set rs. r_filename r = filename (?kept ! nat (r_file_index r))"
    and G: "\<forall>e \<in> set es. e_filename e = filename (?kept ! nat (e_file_index e))"
    by simp_all
  show ?thesis
    unfolding e r t
    using R E F G partitioned_res_sorted[OF P] partitioned_err_sorted[OF P] by blast
qed

theorem scan_indices_follow_kept_order_witness:
  "scan_documents sample_env [upload '' '', upload ''a.pdf'', upload '''', upload ''b.png'']
       False empty_world =
     (Inr \<lparr>total_files = 2, successful_extractions = 1, failed_extractions = 1,
           total_processing_time = 3,
           results = [\<lparr>r_file_index = 0, r_filename = Some ''a.pdf'',
                      r_processing_method = ''gemini_direct'', r_processing_time = 2,
                      r_data = [(''document_type'', ''Flight'')]\<rparr>],
           errors = Some [\<lparr>e_file_index = 1, e_filename = Some ''b.png'',
                           e_error = ''Only PDF files are supported for direct Gemini processing. Unsupported file type: .png''\<rparr>]\<rparr>,
      \<lparr>fs = {},
        trace = [Read_upload (Some ''a.pdf''), Open_write ''tmp/1b9d6bcd_0.pdf'',
                 Upload_file ''tmp/1b9d6bcd_0.pdf'', Generate_content ''files/abc-123'',
                 Delete_file ''files/abc-123'', Remove ''tmp/1b9d6bcd_0.pdf'',
                 Read_upload (Some ''b.png''), Open_write ''tmp/1b9d6bcd_1.png'',
                 Remove ''tmp/1b9d6bcd_1.png'']\<rparr>) \<and>
   (2 :: nat) = length (filter (\<lambda>f. \<not> blank_filename f)
                  [upload '' '', upload ''a.pdf'', upload '''', upload ''b.png''])"
proof -
  have run: "scan_documents sample_env [upload '' '', upload ''a.pdf'', upload '''', upload ''b.png'']
       False empty_world =
     (Inr \<lparr>total_files = 2, successful_extractions = 1, failed_extractions = 1,
           total_processing_time = 3,
           results = [\<lparr>r_file_index = 0, r_filename = Some ''a.pdf'',
                      r_processing_method = ''gemini_direct'', r_processing_time = 2,
                      r_data = [(''document_type'', ''Flight'')]\<rparr>],
           errors = Some [\<lparr>e_file_index = 1, e_filename = Some ''b.png'',
                           e_error = ''Only PDF files are supported for direct Gemini processing. Unsupported file type: .png''\<rparr>]\<rparr>,
      \<lparr>fs = {},
        trace = [Read_upload (Some ''a.pdf''), Open_write ''tmp/1b9d6bcd_0.pdf'',
                 Upload_file ''tmp/1b9d6bcd_0.pdf'', Generate_content ''files/abc-123'',
                 Delete_file ''files/abc-123'', Remove ''tmp/1b9d6bcd_0.pdf'',
                 Read_upload (Some ''b.png''), Open_write ''tmp/1b9d6bcd_1.png'',
                 Remove ''tmp/1b9d6bcd_1.png'']\<rparr>)"
    by code_simp
  from scan_indices_follow_kept_order[OF run] show ?thesis
    using run by simp
qed

text \<open>
  The claim as stated fails when a filename is a single space: that file has a non-empty
  filename, yet it is dropped, so the PDF after it gets index 0 and \<open>total_files\<close> is 1.
\<close>

theorem kept_order_counterexample:
  "filter has_filename [upload '' '', upload ''a.pdf''] = [upload '' '', upload ''a.pdf''] \<and>
   scan_documents sample_env [upload '' '', upload ''a.pdf''] False empty_world =
     (Inr \<lparr>total_files = 1, successful_extractions = 1, failed_extractions = 0,
           total_processing_time = 3,
           results = [\<lparr>r_file_index = 0, r_filename = Some ''a.pdf'',
                      r_processing_method = ''gemini_direct'', r_processing_time = 2,
                      r_data = [(''document_type'', ''Flight'')]\<rparr>],
           errors = None\<rparr>,
      \<lparr>fs = {},
        trace = [Read_upload (Some ''a.pdf''), Open_write ''tmp/1b9d6bcd_0.pdf'',
                 Upload_file ''tmp/1b9d6bcd_0.pdf'', Generate_content ''files/abc-123'',
                 Delete_file ''files/abc-123'', Remove ''tmp/1b9d6bcd_0.pdf'']\<rparr>)"
  by code_simp

lemma fs_emit [simp]: "fs (emit e w) = fs w"
  by (simp add: emit_def)

lemma fs_direct_gemini: "fs (snd (direct_gemini loads ce file i p w)) = fs w"
  by (simp add: direct_gemini_def Let_def split: sum.splits option.splits)

lemma fs_try_body:
  "fs (snd (try_body loads ce file i ext p w)) =
     (if opened file ce then insert p (fs w) else fs w)"
proof -
  have "fs w4 = fs w3" if "direct_gemini loads ce file i p w3 = (r, w4)" for r w3 w4
    using fs_direct_gemini[of loads ce "file" i p w3] that by simp
  then show ?thesis
    by (auto simp: try_body_def opened_def Let_def split: sum.splits option.splits prod.splits)
qed

lemma fs_cleanup:
  "fs (cleanup ce p w) = (if remove_exn ce = None then fs w - {p} else fs w)"
  by (auto simp: cleanup_def Let_def split: option.splits)

lemma trace_cleanup:
  "p \<in> fs w \<Longrightarrow> trace (cleanup ce p w) = trace w @ [Remove p]"
  by (simp add: cleanup_def Let_def emit_def split: option.splits)

lemma direct_gemini_remove_irrelevant:
  "direct_gemini loads (ce\<lparr>remove_exn := x\<rparr>) file i p w = direct_gemini loads ce file i p w"
  by (simp add: direct_gemini_def Let_def split: sum.splits option.splits)

lemma try_body_remove_irrelevant:
  "try_body loads (ce\<lparr>remove_exn := x\<rparr>) file i ext p w = try_body loads ce file i ext p w"
  by (simp add: try_body_def Let_def direct_gemini_remove_irrelevant
           split: sum.splits option.splits)

text \<open>
  C7, as amended. For a file that has a filename, whatever the outcome: the value returned
  does not depend on what \<open>os.remove\<close> does; if the scratch file exists when the
  \<open>finally\<close> block runs (it was there before, or \<open>open\<close> created it), its removal is
  the last effect of the call; if \<open>os.remove\<close> does not raise, or the file never existed,
  the scratch file does not exist after the call; if \<open>os.remove\<close> raises, the exception
  is swallowed and the scratch file is still there. No other file is touched.
\<close>

theorem scratch_copy_cleanup:
  assumes "filename file = Some name"
  shows "fst (process_single_document loads (ce\<lparr>remove_exn := x\<rparr>) file gemini_only file_index w) =
           fst (process_single_document loads ce file gemini_only file_index w) \<and>
         (let p = temp_file_path_of (uuid8 ce) file_index (file_ext_of name);
              w' = snd (process_single_document loads ce file gemini_only file_index w)
          in (p \<in> fs w \<or> opened file ce \<longrightarrow> trace w' \<noteq> [] \<and> last (trace w') = Remove p) \<and>
             (remove_exn ce = None \<longrightarrow> p \<notin> fs w') \<and>
             (p \<notin> fs w \<and> \<not> opened file ce \<longrightarrow> p \<notin> fs w') \<and>
             (remove_exn ce \<noteq> None \<and> (p \<in> fs w \<or> opened file ce) \<longrightarrow> p \<in> fs w') \<and>
             fs w' - {p} = fs w - {p})"
proof -
  let ?p = "temp_file_path_of (uuid8 ce) file_index (file_ext_of name)"
  let ?tb = "try_body loads ce file file_index (file_ext_of name) ?p w"
  have W: "snd (process_single_document loads ce file gemini_only file_index w) =
             cleanup ce ?p (snd ?tb)"
    by (simp add: process_single_document_Some[OF assms])
  have A: "fst (process_single_document loads (ce\<lparr>remove_exn := x\<rparr>) file gemini_only file_index w) =
           fst (process_single_document loads ce file gemini_only file_index w)"
    by (simp add: process_single_document_Some[OF assms] try_body_remove_irrelevant)
  have T: "trace (cleanup ce ?p (snd ?tb)) \<noteq> [] \<and> last (trace (cleanup ce ?p (snd ?tb))) = Remove ?p"
    if "?p \<in> fs w \<or> opened file ce"
  proof -
    from that have "?p \<in> fs (snd ?tb)" by (auto simp: fs_try_body)
    from trace_cleanup[OF this, of ce] show ?thesis by simp
  qed
  have F: "fs (cleanup ce ?p (snd ?tb)) =
     (if remove_exn ce = None
      then (if opened file ce then insert ?p (fs w) else fs w) - {?p}
      else (if opened file ce then insert ?p (fs w) else fs w))"
    by (simp add: fs_cleanup fs_try_body)
  have B: "(remove_exn ce = None \<longrightarrow> ?p \<notin> fs (cleanup ce ?p (snd ?tb))) \<and>
           (?p \<notin> fs w \<and> \<not> opened file ce \<longrightarrow> ?p \<notin> fs (cleanup ce ?p (snd ?tb))) \<and>
           (remove_exn ce \<noteq> None \<and> (?p \<in> fs w \<or> opened file ce)
              \<longrightarrow> ?p \<in> fs (cleanup ce ?p (snd ?tb))) \<and>
           fs (cleanup ce ?p (snd ?tb)) - {?p} = fs w - {?p}"
    unfolding F by auto
  show ?thesis
    unfolding Let_def W using A T B by blast
qed

theorem scratch_copy_cleanup_witness:
  "filename (upload ''a.pdf'') = Some ''a.pdf'' \<and>
   opened (upload ''a.pdf'') sample_call \<and> remove_exn sample_call = None \<and>
   temp_file_path_of (uuid8 sample_call) 0 (file_ext_of ''a.pdf'') = ''tmp/1b9d6bcd_0.pdf'' \<and>
   ''tmp/1b9d6bcd_0.pdf'' \<notin>
      fs (snd (process_single_document sample_loads sample_call (upload ''a.pdf'') False 0 empty_world)) \<and>
   last (trace (snd (process_single_document sample_loads sample_call (upload ''a.pdf'') False 0
      empty_world))) = Remove ''tmp/1b9d6bcd_0.pdf''"
proof -
  have n: "filename (upload ''a.pdf'') = Some ''a.pdf''" by (simp add: upload_def)
  have ope: "opened (upload ''a.pdf'') sample_call" by code_simp
  have r: "remove_exn sample_call = None" by (simp add: sample_call_def)
  have p: "temp_file_path_of (uuid8 sample_call) 0 (file_ext_of ''a.pdf'') = ''tmp/1b9d6bcd_0.pdf''"
    by code_simp
  from scratch_copy_cleanup[OF n, of sample_loads None sample_call False 0 empty_world]
  show ?thesis using n ope r p by (simp add: Let_def)
qed

text \<open>
  The claim as stated fails when \<open>os.remove\<close> raises: the extraction succeeds, the
  result is returned unchanged, and the scratch file still exists after the call.
\<close>

theorem scratch_copy_counterexample:
  "process_single_document sample_loads (sample_call\<lparr>remove_exn := Some ''[Errno 13] Permission denied''\<rparr>)
       (upload ''a.pdf'') False 0 empty_world =
     (Inr (FileResult \<lparr>r_file_index = 0, r_filename = Some ''a.pdf'',
                        r_processing_method = ''gemini_direct'', r_processing_time = 2,
                        r_data = [(''document_type'', ''Flight'')]\<rparr>),
      \<lparr>fs = {''tmp/1b9d6bcd_0.pdf''},
        trace = [Read_upload (Some ''a.pdf''), Open_write ''tmp/1b9d6bcd_0.pdf'',
                 Upload_file ''tmp/1b9d6bcd_0.pdf'', Generate_content ''files/abc-123'',
                 Delete_file ''files/abc-123'', Remove ''tmp/1b9d6bcd_0.pdf'']\<rparr>)"
  by code_simp





lemma reads_fs_update [simp]: "reads (w\<lparr>fs := x\<rparr>) = reads w"
  by (simp add: reads_def)

















lemma dropWhile_strip: "dropWhile isspace (strip s) = strip s"
proof (cases "dropWhile isspace (rev (dropWhile isspace s)) = []")
  case True
  then show ?thesis by (simp add: strip_def del: dropWhile_eq_Nil_conv)
next
  case False
  let ?d = "dropWhile isspace s"
  let ?r = "dropWhile isspace (rev ?d)"
  from False have d: "?d \<noteq> []" by (metis dropWhile.simps(1) rev.simps(1))
  then have nd: "\<not> isspace (hd ?d)" by (rule hd_dropWhile)
  obtain ys where ys: "rev ?d = ys @ ?r"
    by (metis takeWhile_dropWhile_id)
  from False ys have "last ?r = last (rev ?d)" by (metis last_appendR)
  also have "\<dots> = hd ?d" using d by (simp add: last_rev)
  finally have "\<not> isspace (hd (rev ?r))" using nd False by (simp add: hd_rev)
  then have "dropWhile isspace (rev ?r) = rev ?r"
    by (simp add: dropWhile_eq_self_iff)
  then show ?thesis by (simp add: strip_def)
qed

lemma strip_strip: "strip (strip s) = strip s"
proof -
  have "strip (strip s) = rev (dropWhile isspace (rev (strip s)))"
    by (simp only: strip_def[of "strip s"] dropWhile_strip)
  also have "rev (strip s) = dropWhile isspace (rev (dropWhile isspace s))"
    by (simp add: strip_def)
  finally show ?thesis by (simp add: strip_def)
qed

lemma startswith_append [simp]: "startswith (p @ s) p"
  by (simp add: startswith_def)

lemma endswith_append [simp]: "endswith (s @ p) p"
  by (simp add: endswith_def)

lemma startswith_json_fence:
  "startswith (''```'' @ s) ''```json'' \<longleftrightarrow> startswith s ''json''"
  by (simp add: startswith_def)

lemma startswith_fence_of_json: "startswith (''```json'' @ s) ''```''"
  by (simp add: startswith_def)

lemma startswith_split: "startswith t p \<Longrightarrow> t = p @ drop (length p) t"
  unfolding startswith_def by (metis append_take_drop_id)

lemma startswith_json_imp_fence:
  assumes "startswith t ''```json''"
  shows "startswith t ''```''"
proof -
  from startswith_split[OF assms] obtain r where "t = ''```json'' @ r" by blast
  then show ?thesis by (simp add: startswith_def)
qed

lemma normalize_response_cases:
  "normalize_response text =
     strip (let t = strip text;
                u = (if startswith t ''```json'' then drop 7 t
                     else if startswith t ''```'' then drop 3 t else t)
            in if endswith u ''```'' then take (length u - 3) u else u)"
  by (simp add: normalize_response_def Let_def)

text \<open>
  C4. On the response text with its surrounding whitespace trimmed, the normalizer removes
  a leading \<open>```json\<close> marker if there is one, otherwise a leading \<open>```\<close> if there is
  one, removes a trailing \<open>```\<close> if there is one, and trims the whitespace around what
  is left; a text without fences is only trimmed. For the text
  \<open>```json\<close>, newline, \<open>{"document_type":"Flight"}\<close>, newline, \<open>```\<close> the result is
  \<open>{"document_type":"Flight"}\<close>. The normalized text is what \<open>json.loads\<close> parses: when
  every step before it succeeds, the call returns the parsed value as \<open>data\<close>, or a
  \<open>FileError\<close> with the parser's message.
\<close>

theorem response_normalizer:
  "(\<forall>body. strip text = ''```json'' @ body @ ''```''
       \<longrightarrow> normalize_response text = strip body) \<and>
   (\<forall>body. strip text = ''```json'' @ body \<and> \<not> endswith body ''```''
       \<longrightarrow> normalize_response text = strip body) \<and>
   (\<forall>body. strip text = ''```'' @ body @ ''```'' \<and> \<not> startswith (body @ ''```'') ''json''
       \<longrightarrow> normalize_response text = strip body) \<and>
   (\<forall>body. strip text = ''```'' @ body \<and> \<not> startswith body ''json'' \<and> \<not> endswith body ''```''
       \<longrightarrow> normalize_response text = strip body) \<and>
   (\<forall>body. strip text = body @ ''```'' \<and> \<not> startswith (strip text) ''```''
       \<longrightarrow> normalize_response text = strip body) \<and>
   (\<not> startswith (strip text) ''```'' \<and> \<not> endswith (strip text) ''```''
       \<longrightarrow> normalize_response text = strip text) \<and>
   normalize_response fenced_flight_text = flight_text \<and>
   (filename file = Some name \<and> file_ext_of name = ''.pdf'' \<and> staged file ce \<and>
    upload_result ce = Inr remote_name \<and> generate_exn ce = None \<and> delete_exn ce = None \<and>
    response_text ce = Inr raw
       \<longrightarrow> fst (process_single_document loads ce file gemini_only file_index w) =
             (case loads (normalize_response raw) of
                Inr data \<Rightarrow>
                  Inr (FileResult \<lparr>r_file_index = file_index, r_filename = Some name,
                                    r_processing_method = ''gemini_direct'',
                                    r_processing_time = elapsed ce, r_data = data\<rparr>)
              | Inl m \<Rightarrow>
                  Inr (FileError \<lparr>e_file_index = file_index, e_filename = Some name,
                                   e_error = failed_prefix @ m\<rparr>)))"
proof (intro conjI allI impI)
  fix body assume "strip text = ''```json'' @ body @ ''```''"
  then show "normalize_response text = strip body"
    by (simp add: normalize_response_cases startswith_def endswith_def)
next
  fix body assume "strip text = ''```json'' @ body \<and> \<not> endswith body ''```''"
  then show "normalize_response text = strip body"
    by (simp add: normalize_response_cases startswith_def)
next
  fix body assume A: "strip text = ''```'' @ body @ ''```'' \<and> \<not> startswith (body @ ''```'') ''json''"
  then have "\<not> startswith (strip text) ''```json''"
    by (simp add: startswith_def)
  moreover from A have "startswith (strip text) ''```''" by (simp add: startswith_def)
  moreover from A have "drop 3 (strip text) = body @ ''```''" by simp
  ultimately show "normalize_response text = strip body"
    by (simp add: normalize_response_cases endswith_def)
next
  fix body assume A: "strip text = ''```'' @ body \<and> \<not> startswith body ''json'' \<and> \<not> endswith body ''```''"
  then have "\<not> startswith (strip text) ''```json''"
    by (simp add: startswith_def)
  moreover from A have "startswith (strip text) ''```''" by (simp add: startswith_def)
  moreover from A have "drop 3 (strip text) = body" by simp
  ultimately show "normalize_response text = strip body"
    using A by (simp add: normalize_response_cases)
next
  fix body assume A: "strip text = body @ ''```'' \<and> \<not> startswith (strip text) ''```''"
  then have t: "strip text = body @ ''```''"
    and ns: "\<not> startswith (body @ ''```'') ''```''"
    by auto
  have nj: "\<not> startswith (body @ ''```'') ''```json''"
    using ns startswith_json_imp_fence by blast
  show "normalize_response text = strip body"
    by (simp add: normalize_response_cases t ns nj)
next
  assume A: "\<not> startswith (strip text) ''```'' \<and> \<not> endswith (strip text) ''```''"
  have "\<not> startswith (strip text) ''```json''"
    using A startswith_json_imp_fence by blast
  with A show "normalize_response text = strip text"
    by (simp add: normalize_response_cases strip_strip)
next
  show "normalize_response fenced_flight_text = flight_text"
    by code_simp
next
  assume A: "filename file = Some name \<and> file_ext_of name = ''.pdf'' \<and> staged file ce \<and>
    upload_result ce = Inr remote_name \<and> generate_exn ce = None \<and> delete_exn ce = None \<and>
    response_text ce = Inr raw"
  show "fst (process_single_document loads ce file gemini_only file_index w) =
             (case loads (normalize_response raw) of
                Inr data \<Rightarrow>
                  Inr (FileResult \<lparr>r_file_index = file_index, r_filename = Some name,
                                    r_processing_method = ''gemini_direct'',
                                    r_processing_time = elapsed ce, r_data = data\<rparr>)
              | Inl m \<Rightarrow>
                  Inr (FileError \<lparr>e_file_index = file_index, e_filename = Some name,
                                   e_error = failed_prefix @ m\<rparr>))"
  proof (cases "loads (normalize_response raw)")
    case (Inl m)
    with A show ?thesis
      by (simp add: process_outcome try_body_pdf direct_gemini_parse_fails)
  next
    case (Inr d)
    with A show ?thesis
      by (simp add: process_outcome try_body_pdf direct_gemini_succeeds)
  qed
qed

theorem response_normalizer_witness:
  "filename (upload ''a.pdf'') = Some ''a.pdf'' \<and> file_ext_of ''a.pdf'' = ''.pdf'' \<and>
   staged (upload ''a.pdf'') sample_call \<and> upload_result sample_call = Inr ''files/abc-123'' \<and>
   generate_exn sample_call = None \<and> delete_exn sample_call = None \<and>
   response_text sample_call = Inr fenced_flight_text \<and>
   sample_loads (normalize_response fenced_flight_text) = Inr [(''document_type'', ''Flight'')] \<and>
   fst (process_single_document sample_loads sample_call (upload ''a.pdf'') False 0 empty_world) =
     Inr (FileResult \<lparr>r_file_index = 0, r_filename = Some ''a.pdf'',
                       r_processing_method = ''gemini_direct'', r_processing_time = 2,
                       r_data = [(''document_type'', ''Flight'')]\<rparr>)"
proof -
  have h1: "filename (upload ''a.pdf'') = Some ''a.pdf''" by (simp add: upload_def)
  have h2: "file_ext_of ''a.pdf'' = ''.pdf''" by code_simp
  have h3: "staged (upload ''a.pdf'') sample_call" by code_simp
  have h4: "upload_result sample_call = Inr ''files/abc-123''" by (simp add: sample_call_def)
  have h5: "generate_exn sample_call = None" by (simp add: sample_call_def)
  have h6: "delete_exn sample_call = None" by (simp add: sample_call_def)
  have h7: "response_text sample_call = Inr fenced_flight_text" by (simp add: sample_call_def)
  have h8: "elapsed sample_call = 2" by (simp add: sample_call_def)
  note N = response_normalizer[of fenced_flight_text "upload ''a.pdf''" "''a.pdf''" sample_call
      "''files/abc-123''" fenced_flight_text sample_loads False 0 empty_world]
  from N have n: "normalize_response fenced_flight_text = flight_text" by blast
  then have p: "sample_loads (normalize_response fenced_flight_text) =
      Inr [(''document_type'', ''Flight'')]"
    by (simp add: sample_loads_def)
  from N h1 h2 h3 h4 h5 h6 h7
  have "fst (process_single_document sample_loads sample_call (upload ''a.pdf'') False 0 empty_world) =
     (case sample_loads (normalize_response fenced_flight_text) of
        Inr data \<Rightarrow>
          Inr (FileResult \<lparr>r_file_index = 0, r_filename = Some ''a.pdf'',
                            r_processing_method = ''gemini_direct'',
                            r_processing_time = elapsed sample_call, r_data = data\<rparr>)
      | Inl m \<Rightarrow>
          Inr (FileError \<lparr>e_file_index = 0, e_filename = Some ''a.pdf'',
                           e_error = failed_prefix @ m\<rparr>))"
    by blast
  with p h8 have "fst (process_single_document sample_loads sample_call (upload ''a.pdf'') False 0
      empty_world) =
     Inr (FileResult \<lparr>r_file_index = 0, r_filename = Some ''a.pdf'',
                       r_processing_method = ''gemini_direct'', r_processing_time = 2,
                       r_data = [(''document_type'', ''Flight'')]\<rparr>)"
    by simp
  with h1 h2 h3 h4 h5 h6 h7 p show ?thesis by blast
qed

end
